theory Spec2Isabelle
  imports Complex_Main
begin

section \<open>Template FFD mixture model: losses, annealing and prediction post-processing\<close>

text \<open>
  A shallow embedding of \<^verbatim>\<open>model/template_ffd_builder.py\<close>.

  Conventions of the embedding:
  \<^item> a \<^verbatim>\<open>float32\<close> tensor is a nested list of \<^typ>\<open>real\<close> (rank 1: \<open>real list\<close>, rank 2: a
    list of rows, and so on); floating-point rounding, infinities and NaN are not
    represented, so the theorems are about the exact arithmetic the code approximates;
  \<^item> the global training step read by the annealing factors is an explicit argument;
  \<^item> a Python exception is a value \<open>Inl e\<close> of a sum type, a returned \<^verbatim>\<open>None\<close> is
    \<open>None\<close> of an option type;
  \<^item> \<^verbatim>\<open>tf.summary.scalar\<close> appends to an explicit list of recorded summaries.
\<close>

subsection \<open>Errors\<close>

datatype error = ValueError string | IndexError | TypeError | ZeroDivisionError

definition ebind :: "error + 'a \<Rightarrow> ('a \<Rightarrow> error + 'b) \<Rightarrow> error + 'b" where
  "ebind m f = (case m of Inl e \<Rightarrow> Inl e | Inr x \<Rightarrow> f x)"

subsection \<open>Annealing schedules\<close>

text \<open>
  \<^verbatim>\<open>linear_annealing_factor\<close>: \<^verbatim>\<open>tf.maximum(1 - step / cutoff, 0)\<close>, with \<^verbatim>\<open>step\<close> the
  global step cast to float. For \<^verbatim>\<open>cutoff = 0\<close> the float division gives an infinity or
  NaN, which the reals do not have; theorems about this factor assume a non-zero cutoff.
\<close>

definition linear_annealing_factor :: "real \<Rightarrow> nat \<Rightarrow> real" where
  "linear_annealing_factor cutoff step = max (1 - real step / cutoff) 0"

text \<open>\<^verbatim>\<open>exp_annealing_factor\<close>: \<^verbatim>\<open>tf.exp(-step*rate)\<close>.\<close>

definition exp_annealing_factor :: "real \<Rightarrow> nat \<Rightarrow> real" where
  "exp_annealing_factor rate step = exp (- real step * rate)"

definition both_schedules_msg :: string where
  "both_schedules_msg =
     ''At least one of `linear_annealing_cutoff` or `exp_annealing_rate` must be `None`''"

text \<open>
  \<^verbatim>\<open>annealed_weight(weight, linear_annealing_cutoff=None, exp_annealing_rate=None)\<close>,
  with the same nesting of the two tests for \<^verbatim>\<open>None\<close> as the source.
\<close>

definition annealed_weight :: "real \<Rightarrow> real option \<Rightarrow> real option \<Rightarrow> nat \<Rightarrow> error + real" where
  "annealed_weight w linear_annealing_cutoff exp_annealing_rate step =
     (case linear_annealing_cutoff of
        None \<Rightarrow>
          (case exp_annealing_rate of
             None \<Rightarrow> Inr w
           | Some rate \<Rightarrow> Inr (w * exp_annealing_factor rate step))
      | Some cutoff \<Rightarrow>
          (case exp_annealing_rate of
             None \<Rightarrow> Inr (w * linear_annealing_factor cutoff step)
           | Some rate \<Rightarrow> Inl (ValueError both_schedules_msg)))"

subsection \<open>Tensor operations\<close>

type_synonym mat = "real list list"

text \<open>
  Shapes are static in the source (TensorFlow checks them when the graph is built, numpy
  when an operation runs). The operations below are total functions on nested lists;
  the theorems state the shapes they need as hypotheses.
\<close>

text \<open>Elementwise sum of two arrays of the same shape (\<^verbatim>\<open>ps[i] + dp[i]\<close>, \<^verbatim>\<open>p + dp\<close>).\<close>

definition matadd :: "mat \<Rightarrow> mat \<Rightarrow> mat" where
  "matadd x y = map2 (map2 (+)) x y"

text \<open>
  \<^verbatim>\<open>np.matmul(a, x)\<close> for an \<open>m \<times> K\<close> array \<open>a\<close> and a \<open>K \<times> c\<close> array \<open>x\<close> with
  \<open>K > 0\<close>: entry \<open>(j, m)\<close> is the dot product of row \<open>j\<close> of \<open>a\<close> with column \<open>m\<close>
  of \<open>x\<close>.
\<close>

definition matmul :: "mat \<Rightarrow> mat \<Rightarrow> mat" where
  "matmul a x = map (\<lambda>row. map (\<lambda>col. sum_list (map2 (*) row col)) (transpose x)) a"

text \<open>\<^verbatim>\<open>tf.reduce_sum\<close> of a rank-2 tensor.\<close>

definition reduce_sum :: "real list list \<Rightarrow> real" where
  "reduce_sum x = sum_list (map sum_list x)"

text \<open>\<^verbatim>\<open>tf.reduce_mean(x, axis=0)\<close> of a rank-2 tensor with at least one row.\<close>

definition reduce_mean_axis0 :: "real list list \<Rightarrow> real list" where
  "reduce_mean_axis0 x = map (\<lambda>col. sum_list col / real (length col)) (transpose x)"

text \<open>\<^verbatim>\<open>tf.reduce_sum(dp**2, axis=(2, 3))\<close> of a rank-4 tensor.\<close>

definition reduce_sum_sq_axis23 :: "mat list list \<Rightarrow> real list list" where
  "reduce_sum_sq_axis23 dp = map (map (\<lambda>m. reduce_sum (map (map (\<lambda>v. v\<^sup>2)) m))) dp"

subsection \<open>Inference head: label smoothing\<close>

record inference =
  inf_probs :: "real list list"
  inf_dp :: "mat list list"

text \<open>
  \<^verbatim>\<open>get_inference\<close>, from the outputs of the two dense layers on: \<open>softmax_out\<close> is the
  \<open>batch \<times> n_templates\<close> output of the softmax layer, \<open>dp_out\<close> the reshaped deformation
  output. \<open>prob_eps\<close> is \<^verbatim>\<open>params.get('prob_eps', 0.1)\<close>. The feature network and the
  identifiers passed through unchanged are left out. Python's float division
  \<^verbatim>\<open>eps / n_templates\<close> raises for \<^verbatim>\<open>n_templates = 0\<close>.
\<close>

definition get_inference ::
  "real option \<Rightarrow> nat \<Rightarrow> real list list \<Rightarrow> mat list list \<Rightarrow> error + inference" where
  "get_inference prob_eps n_templates softmax_out dp_out =
     (let eps = (case prob_eps of None \<Rightarrow> 1 / 10 | Some e \<Rightarrow> e) in
      if eps > 0 then
        (if n_templates = 0 then Inl ZeroDivisionError
         else Inr \<lparr>inf_probs =
                     map (map (\<lambda>pr. (1 - eps) * pr + eps / real n_templates)) softmax_out,
                   inf_dp = dp_out\<rparr>)
      else Inr \<lparr>inf_probs = softmax_out, inf_dp = dp_out\<rparr>)"

subsection \<open>Mixture loss\<close>

text \<open>
  \<^verbatim>\<open>get_inferred_point_clouds\<close>: \<^verbatim>\<open>tf.einsum('ijk,likm->lijm', b, p + dp)\<close>, with \<open>b\<close>
  the resampled bases (one \<open>R \<times> K\<close> matrix per template), \<open>p\<close> the control points (one
  \<open>K \<times> 3\<close> matrix per template, broadcast over the batch) and \<open>dp\<close> of shape
  \<open>batch \<times> n_templates \<times> K \<times> 3\<close>. The random resampling of \<^verbatim>\<open>get_ffd_tensors\<close> has
  happened before: \<open>b\<close> is its result.
\<close>

definition get_inferred_point_clouds :: "mat list \<Rightarrow> mat list \<Rightarrow> mat list list \<Rightarrow> mat list list" where
  "get_inferred_point_clouds b p dp =
     map (\<lambda>dp_l. map (\<lambda>(b_i, p_i, dp_li). matmul b_i (matadd p_i dp_li)) (zip b (zip p dp_l))) dp"

text \<open>
  \<^verbatim>\<open>get_chamfer_loss\<close>. \<^verbatim>\<open>tf_metrics.chamfer\<close> is defined in another module
  (\<^verbatim>\<open>template_ffd.metrics.tf_impl\<close>); it is applied to a batch of inferred clouds and the batch of ground-truth clouds and
  gives one value per example, so it is modelled as \<open>map2 chamfer\<close> for a
  per-example distance \<open>chamfer\<close> that stays a parameter. \<^verbatim>\<open>tf.unstack(_, axis=1)\<close> and
  \<^verbatim>\<open>tf.stack(_, axis=1)\<close> exchange the batch and the template axis.
\<close>

definition get_chamfer_loss ::
  "(mat \<Rightarrow> mat \<Rightarrow> real) \<Rightarrow> mat list \<Rightarrow> mat list \<Rightarrow> real list list \<Rightarrow> mat list list \<Rightarrow> mat list
   \<Rightarrow> real" where
  "get_chamfer_loss chamfer b p gamma_t dp ground_truth_cloud =
     (let inferred_point_clouds = get_inferred_point_clouds b p dp;
          unstacked = transpose inferred_point_clouds;
          losses = map (\<lambda>inferred. map2 chamfer inferred ground_truth_cloud) unstacked;
          stacked = transpose losses;
          weighted = map2 (map2 (*)) gamma_t stacked
      in reduce_sum weighted)"

record weight_kwargs =
  weight :: real
  linear_annealing_cutoff :: "real option"
  exp_annealing_rate :: "real option"

text \<open>\<^verbatim>\<open>annealed_weight(**weight_kwargs)\<close>.\<close>

definition annealed_weight_kw :: "weight_kwargs \<Rightarrow> nat \<Rightarrow> error + real" where
  "annealed_weight_kw kw step =
     annealed_weight (weight kw) (linear_annealing_cutoff kw) (exp_annealing_rate kw) step"

text \<open>The sum \<^verbatim>\<open>tf.reduce_sum(mean_probs * tf.log(mean_probs))\<close> of \<^verbatim>\<open>get_entropy_loss\<close>.\<close>

definition entropy_term :: "real list list \<Rightarrow> real" where
  "entropy_term probs =
     (let mean_probs = reduce_mean_axis0 probs
      in sum_list (map (\<lambda>m. m * ln m) mean_probs))"

definition get_entropy_loss :: "real list list \<Rightarrow> weight_kwargs \<Rightarrow> nat \<Rightarrow> error + real" where
  "get_entropy_loss probs kw step =
     (let entropy_loss = entropy_term probs
      in ebind (annealed_weight_kw kw step) (\<lambda>w. Inr (entropy_loss * w)))"

text \<open>
  \<^verbatim>\<open>get_dp_reg_loss\<close>; \<open>uniform\<close> is \<^verbatim>\<open>weight_kwargs.pop('uniform', False)\<close>, the rest of
  the keyword arguments go to \<^verbatim>\<open>annealed_weight\<close>.
\<close>

definition get_dp_reg_loss ::
  "real list list \<Rightarrow> mat list list \<Rightarrow> bool \<Rightarrow> weight_kwargs \<Rightarrow> nat \<Rightarrow> error + real" where
  "get_dp_reg_loss probs dp uniform kw step =
     (let reg_loss =
        (if uniform then reduce_sum (reduce_sum_sq_axis23 dp)
         else reduce_sum (map2 (map2 (*)) (reduce_sum_sq_axis23 dp) probs))
      in ebind (annealed_weight_kw kw step) (\<lambda>w. Inr (reg_loss * w)))"

record params =
  gamma :: "string option"
  entropy_loss :: "weight_kwargs option"
  dp_regularization :: "(bool \<times> weight_kwargs) option"

text \<open>
  The \<^verbatim>\<open>if/elif\<close> chain of \<^verbatim>\<open>get_inference_loss\<close> on
  \<^verbatim>\<open>gamma_code = self.params.get('gamma', 'linear')\<close>. In log mode a probability of 1
  or more gives an infinity or NaN in floating point; the reals have neither, and \<open>ln\<close>
  of a non-positive real is just some real.
\<close>

definition gamma_from_code :: "string \<Rightarrow> real list list \<Rightarrow> error + real list list" where
  "gamma_from_code gamma_code probs =
     (if gamma_code = ''linear'' then Inr probs
      else if gamma_code = ''square'' then Inr (map (map (\<lambda>pr. pr\<^sup>2)) probs)
      else if gamma_code = ''log'' then Inr (map (map (\<lambda>pr. - ln (1 - pr))) probs)
      else Inl (ValueError (''Unrecognized gamma value in params: '' @ gamma_code)))"

text \<open>
  The state of \<^verbatim>\<open>get_inference_loss\<close> while it collects its terms: the summaries
  recorded so far by \<^verbatim>\<open>tf.summary.scalar\<close> and the list \<^verbatim>\<open>losses\<close>.
\<close>

type_synonym loss_state = "(string \<times> real) list \<times> real list"

definition add_entropy_loss ::
  "params \<Rightarrow> real list list \<Rightarrow> nat \<Rightarrow> loss_state \<Rightarrow> (string \<times> real) list \<times> (error + real list)" where
  "add_entropy_loss prm probs step st =
     (case entropy_loss prm of
        None \<Rightarrow> (fst st, Inr (snd st))
      | Some entropy_params \<Rightarrow>
          (case get_entropy_loss probs entropy_params step of
             Inl e \<Rightarrow> (fst st, Inl e)
           | Inr l \<Rightarrow> (fst st @ [(''entropy'', l)], Inr (snd st @ [l]))))"

definition add_dp_reg_loss ::
  "params \<Rightarrow> real list list \<Rightarrow> mat list list \<Rightarrow> nat \<Rightarrow> loss_state
   \<Rightarrow> (string \<times> real) list \<times> (error + real list)" where
  "add_dp_reg_loss prm probs dp step st =
     (case dp_regularization prm of
        None \<Rightarrow> (fst st, Inr (snd st))
      | Some (uniform, dp_reg_params) \<Rightarrow>
          (case get_dp_reg_loss probs dp uniform dp_reg_params step of
             Inl e \<Rightarrow> (fst st, Inl e)
           | Inr l \<Rightarrow> (fst st @ [(''dp_reg_loss'', l)], Inr (snd st @ [l]))))"

text \<open>
  \<^verbatim>\<open>get_inference_loss\<close>. The result is the list of recorded summaries together with
  the loss or the exception. \<^verbatim>\<open>losses[0] if len(losses) == 1 else tf.add_n(losses)\<close>
  is the sum of the collected terms.
\<close>

definition get_inference_loss ::
  "params \<Rightarrow> (mat \<Rightarrow> mat \<Rightarrow> real) \<Rightarrow> mat list \<Rightarrow> mat list \<Rightarrow> inference \<Rightarrow> mat list \<Rightarrow> nat
   \<Rightarrow> (string \<times> real) list \<times> (error + real)" where
  "get_inference_loss prm chamfer b p inference labels step =
     (let probs = inf_probs inference; dp = inf_dp inference;
          gamma_code = (case gamma prm of None \<Rightarrow> ''linear'' | Some g \<Rightarrow> g)
      in case gamma_from_code gamma_code probs of
           Inl e \<Rightarrow> ([], Inl e)
         | Inr gamma_t \<Rightarrow>
             (let chamfer_loss = get_chamfer_loss chamfer b p gamma_t dp labels
              in case add_entropy_loss prm probs step ([(''chamfer'', chamfer_loss)], [chamfer_loss]) of
                   (s2, Inl e) \<Rightarrow> (s2, Inl e)
                 | (s2, Inr l2) \<Rightarrow>
                     (case add_dp_reg_loss prm probs dp step (s2, l2) of
                        (s3, Inl e) \<Rightarrow> (s3, Inl e)
                      | (s3, Inr l3) \<Rightarrow> (s3, Inr (sum_list l3)))))"

subsection \<open>Prediction post-processing\<close>

text \<open>
  \<^verbatim>\<open>np.argmax\<close> of a one-dimensional array: the index of the first occurrence of the
  maximum; numpy raises \<^verbatim>\<open>ValueError\<close> for an empty array. \<open>argmax_from xs j best bi\<close>
  scans the rest \<open>xs\<close>, whose first element has index \<open>j\<close>, with the greatest value
  \<open>best\<close> seen so far and its index \<open>bi\<close>; only a strictly greater value replaces it.
\<close>

fun argmax_from :: "real list \<Rightarrow> nat \<Rightarrow> real \<Rightarrow> nat \<Rightarrow> nat" where
  "argmax_from [] j best bi = bi"
| "argmax_from (x # xs) j best bi =
     (if best < x then argmax_from xs (Suc j) x j else argmax_from xs (Suc j) best bi)"

definition argmax :: "real list \<Rightarrow> error + nat" where
  "argmax xs =
     (case xs of
        [] \<Rightarrow> Inl (ValueError ''attempt to get argmax of an empty sequence'')
      | x # rest \<Rightarrow> Inr (argmax_from rest 1 x 0))"

text \<open>Indexing a tuple, a list or the first axis of an array with a non-negative index.\<close>

definition py_index :: "'a list \<Rightarrow> nat \<Rightarrow> error + 'a" where
  "py_index xs i = (if i < length xs then Inr (xs ! i) else Inl IndexError)"

text \<open>
  The data the closures of \<^verbatim>\<open>get_prediction_to_mesh_fn\<close> and
  \<^verbatim>\<open>get_prediction_to_top_k_mesh_fn\<close> capture, one entry per template: the bases
  \<^verbatim>\<open>bs\<close> and control points \<^verbatim>\<open>ps\<close> as \<^verbatim>\<open>get_ffd_data\<close> yields them (not resampled), and
  the faces and vertices of the template meshes. Loading them from the datasets is not
  modelled.
\<close>

record mesh_data =
  bs :: "mat list"
  ps :: "mat list"
  all_faces :: "nat list list list"
  all_vertices :: "mat list"
  example_ids :: "string list"

record deformed_mesh =
  vertices :: mat
  faces :: "nat list list"
  original_vertices :: mat

record mesh_prediction = deformed_mesh +
  template_id :: string

text \<open>\<^verbatim>\<open>transform_predictions\<close> of \<^verbatim>\<open>get_prediction_to_mesh_fn\<close>.\<close>

definition get_prediction_to_mesh_fn ::
  "mesh_data \<Rightarrow> real list \<Rightarrow> mat list \<Rightarrow> error + mesh_prediction" where
  "get_prediction_to_mesh_fn d probs dp =
     ebind (argmax probs) (\<lambda>i.
     ebind (py_index (bs d) i) (\<lambda>b_i.
     ebind (py_index (ps d) i) (\<lambda>p_i.
     ebind (py_index dp i) (\<lambda>dp_i.
     ebind (py_index (all_faces d) i) (\<lambda>f.
     ebind (py_index (all_vertices d) i) (\<lambda>ov.
     ebind (py_index (example_ids d) i) (\<lambda>tid.
       Inr \<lparr>vertices = matmul b_i (matadd p_i dp_i), faces = f, original_vertices = ov,
            template_id = tid\<rparr>)))))))"

text \<open>\<^verbatim>\<open>get_deformed_mesh\<close> of \<^verbatim>\<open>get_prediction_to_top_k_mesh_fn\<close>.\<close>

definition get_deformed_mesh :: "mesh_data \<Rightarrow> nat \<Rightarrow> mat list \<Rightarrow> error + deformed_mesh" where
  "get_deformed_mesh d i dp =
     ebind (py_index (bs d) i) (\<lambda>b_i.
     ebind (py_index (ps d) i) (\<lambda>p_i.
     ebind (py_index dp i) (\<lambda>dp_i.
     ebind (py_index (all_faces d) i) (\<lambda>f.
     ebind (py_index (all_vertices d) i) (\<lambda>ov.
       Inr \<lparr>vertices = matmul b_i (matadd p_i dp_i), faces = f, original_vertices = ov\<rparr>)))))"

text \<open>
  \<^verbatim>\<open>probs.argsort()\<close>: the indices in ascending order of their values. numpy's default
  sort does not promise an order among equal values; the model is the stable sort, and
  for pairwise distinct values every ascending sort gives this result.
\<close>

definition argsort :: "real list \<Rightarrow> nat list" where
  "argsort xs = sort_key (\<lambda>i. xs ! i) [0..<length xs]"

text \<open>A list comprehension over a function that may raise: the first exception ends it.\<close>

fun emap :: "('a \<Rightarrow> error + 'b) \<Rightarrow> 'a list \<Rightarrow> error + 'b list" where
  "emap f [] = Inr []"
| "emap f (x # xs) = ebind (f x) (\<lambda>y. ebind (emap f xs) (\<lambda>ys. Inr (y # ys)))"

text \<open>
  \<^verbatim>\<open>transform_predictions\<close> of \<^verbatim>\<open>get_prediction_to_top_k_mesh_fn\<close>, with the builder's
  argument \<^verbatim>\<open>top_k\<close>: \<^verbatim>\<open>ks = probs.argsort()[-3:][::-1]\<close> takes the last three indices
  (all of them when there are fewer) and reverses them.
\<close>

definition get_prediction_to_top_k_mesh_fn ::
  "mesh_data \<Rightarrow> nat \<Rightarrow> real list \<Rightarrow> mat list \<Rightarrow> error + deformed_mesh list" where
  "get_prediction_to_top_k_mesh_fn d top_k probs dp =
     (let sorted_idx = argsort probs;
          ks = rev (drop (length sorted_idx - 3) sorted_idx)
      in emap (\<lambda>k. get_deformed_mesh d k dp) ks)"

text \<open>
  The lists \<^verbatim>\<open>get_segmented_cloud_fn\<close> builds, one entry per template; an entry is
  \<^verbatim>\<open>None\<close> when the template is not in the dataset it is read from.
\<close>

record seg_cloud_data =
  sc_bs :: "mat option list"
  sc_ps :: "mat option list"
  sc_segs :: "nat list option list"
  sc_original_points :: "mat option list"

record segmented_cloud =
  points :: mat
  segmentation :: "nat list option"
  original_points :: "mat option"

text \<open>
  \<^verbatim>\<open>transform_predictions\<close> of \<^verbatim>\<open>get_segmented_cloud_fn\<close>. Adding \<^verbatim>\<open>None\<close> to an array
  raises \<^verbatim>\<open>TypeError\<close>.
\<close>

definition get_segmented_cloud_fn ::
  "seg_cloud_data \<Rightarrow> real list \<Rightarrow> mat list \<Rightarrow> error + segmented_cloud option" where
  "get_segmented_cloud_fn d probs dp =
     ebind (argmax probs) (\<lambda>i.
     ebind (py_index (sc_bs d) i) (\<lambda>b.
       case b of
         None \<Rightarrow> Inr None
       | Some b_i \<Rightarrow>
           ebind (py_index (sc_ps d) i) (\<lambda>p.
           ebind (py_index dp i) (\<lambda>dp_i.
             case p of
               None \<Rightarrow> Inl TypeError
             | Some p_i \<Rightarrow>
                 ebind (py_index (sc_segs d) i) (\<lambda>sg.
                 ebind (py_index (sc_original_points d) i) (\<lambda>op.
                   Inr (Some \<lparr>points = matmul b_i (matadd p_i dp_i), segmentation = sg,
                              original_points = op\<rparr>)))))))"

text \<open>The lists \<^verbatim>\<open>get_segmented_mesh_fn\<close> builds, one entry per template.\<close>

record seg_mesh_data =
  sm_bs :: "mat list"
  sm_ps :: "mat list"
  sm_segs :: "nat list option list"
  sm_faces :: "nat list list option list"
  sm_original_seg_points :: "mat option list"
  sm_original_segs :: "nat list option list"

record segmented_mesh =
  seg_faces :: "nat list list option"
  seg_vertices :: mat
  seg_segmentation :: "nat list option"
  seg_original_points :: "mat option"
  seg_original_segmentation :: "nat list option"

text \<open>\<^verbatim>\<open>transform_predictions\<close> of \<^verbatim>\<open>get_segmented_mesh_fn\<close>.\<close>

definition get_segmented_mesh_fn ::
  "seg_mesh_data \<Rightarrow> real list \<Rightarrow> mat list \<Rightarrow> error + segmented_mesh option" where
  "get_segmented_mesh_fn d probs dp =
     ebind (argmax probs) (\<lambda>i.
     ebind (py_index (sm_segs d) i) (\<lambda>seg.
       case seg of
         None \<Rightarrow> Inr None
       | Some s \<Rightarrow>
           ebind (py_index (sm_bs d) i) (\<lambda>b_i.
           ebind (py_index (sm_ps d) i) (\<lambda>p_i.
           ebind (py_index dp i) (\<lambda>dp_i.
           ebind (py_index (sm_faces d) i) (\<lambda>f.
           ebind (py_index (sm_segs d) i) (\<lambda>sg.
           ebind (py_index (sm_original_seg_points d) i) (\<lambda>osp.
           ebind (py_index (sm_original_segs d) i) (\<lambda>os.
             Inr (Some \<lparr>seg_faces = f, seg_vertices = matmul b_i (matadd p_i dp_i),
                        seg_segmentation = sg, seg_original_points = osp,
                        seg_original_segmentation = os\<rparr>))))))))))"

subsection \<open>Specification-side formulas\<close>

text \<open>
  The weighted Chamfer loss as the specification words it: the sum over the batch
  elements \<open>l\<close> and the templates \<open>t\<close> of \<open>g (probs[l,t]) * chamfer (cloud[l,t],
  ground_truth[l])\<close>, for a weighting \<open>g\<close> of the probabilities.
\<close>

definition spec_chamfer_loss ::
  "(real \<Rightarrow> real) \<Rightarrow> (mat \<Rightarrow> mat \<Rightarrow> real) \<Rightarrow> nat \<Rightarrow> nat \<Rightarrow> mat list list \<Rightarrow> real list list \<Rightarrow> mat list
   \<Rightarrow> real" where
  "spec_chamfer_loss g chamfer nb nt cloud probs ground_truth =
     (\<Sum>l<nb. \<Sum>t<nt. g (probs ! l ! t) * chamfer (cloud ! l ! t) (ground_truth ! l))"

text \<open>The sum of the squared entries of one \<open>K \<times> 3\<close> deformation field.\<close>

definition sum_sq :: "mat \<Rightarrow> real" where
  "sum_sq m = (\<Sum>k<length m. \<Sum>c<length (m ! k). (m ! k ! c)\<^sup>2)"

text \<open>
  Entry \<open>(j, c)\<close> of the matrix product \<open>B \<cdot> (P + D)\<close> as the specification words it.
\<close>

definition spec_deformed_entry :: "mat \<Rightarrow> mat \<Rightarrow> mat \<Rightarrow> nat \<Rightarrow> nat \<Rightarrow> real" where
  "spec_deformed_entry B P D j c = (\<Sum>k<length P. B ! j ! k * (P ! k ! c + D ! k ! c))"

section \<open>Properties\<close>

subsection \<open>Sums over nested lists\<close>

lemma sum_list_affine:
  fixes a c :: real
  shows "sum_list (map (\<lambda>x. a * x + c) xs) = a * sum_list xs + c * real (length xs)"
  by (induction xs) (simp_all add: algebra_simps)

lemma transpose_rect:
  assumes "xs \<noteq> []" and "\<forall>r\<in>set xs. length r = n"
  shows "transpose xs = map (\<lambda>i. map (\<lambda>r. r ! i) xs) [0..<n]"
proof -
  have "transpose xs = map (\<lambda>i. map (\<lambda>j. xs ! j ! i) [0..<length xs]) [0..<n]"
    using assms by (intro transpose_rectangle) auto
  moreover have "map (\<lambda>j. xs ! j ! i) [0..<length xs] = map (\<lambda>r. r ! i) xs" for i
    by (rule nth_equalityI) simp_all
  ultimately show ?thesis by simp
qed

lemma sum_list_map2_nth:
  fixes f :: "'a \<Rightarrow> 'b \<Rightarrow> real"
  assumes "length xs = length ys"
  shows "sum_list (map2 f xs ys) = (\<Sum>i<length xs. f (xs ! i) (ys ! i))"
proof -
  have "sum_list (map2 f xs ys) = (\<Sum>i = 0..<length xs. map2 f xs ys ! i)"
    using assms by (simp add: sum_list_sum_nth)
  also have "\<dots> = (\<Sum>i = 0..<length xs. f (xs ! i) (ys ! i))"
    using assms by (intro sum.cong) simp_all
  finally show ?thesis by (simp add: atLeast0LessThan)
qed

lemma sum_list_map_nth:
  fixes f :: "'a \<Rightarrow> real"
  shows "sum_list (map f xs) = (\<Sum>i<length xs. f (xs ! i))"
proof -
  have "sum_list (map f xs) = (\<Sum>i = 0..<length xs. map f xs ! i)"
    by (simp add: sum_list_sum_nth)
  also have "\<dots> = (\<Sum>i = 0..<length xs. f (xs ! i))"
    by (intro sum.cong) simp_all
  finally show ?thesis by (simp add: atLeast0LessThan)
qed

lemma reduce_sum_map2:
  assumes "length X = nb" "length Y = nb"
    and "\<forall>r\<in>set X. length r = nt" and "\<forall>r\<in>set Y. length r = nt"
  shows "reduce_sum (map2 (map2 g) X Y) = (\<Sum>l<nb. \<Sum>i<nt. g (X ! l ! i) (Y ! l ! i))"
proof -
  have "reduce_sum (map2 (map2 g) X Y) = sum_list (map2 (\<lambda>x y. sum_list (map2 g x y)) X Y)"
    by (simp add: reduce_sum_def map_zip_map2 comp_def case_prod_unfold)
  also have "\<dots> = (\<Sum>l<nb. sum_list (map2 g (X ! l) (Y ! l)))"
    using assms by (simp add: sum_list_map2_nth)
  also have "\<dots> = (\<Sum>l<nb. \<Sum>i<nt. g (X ! l ! i) (Y ! l ! i))"
  proof (intro sum.cong refl)
    fix l assume "l \<in> {..<nb}"
    then have "length (X ! l) = nt" "length (Y ! l) = nt" using assms by auto
    then show "sum_list (map2 g (X ! l) (Y ! l)) = (\<Sum>i<nt. g (X ! l ! i) (Y ! l ! i))"
      by (simp add: sum_list_map2_nth)
  qed
  finally show ?thesis .
qed

subsection \<open>Annealed weights\<close>






text \<open>
  Claim C10. With neither schedule configured, \<^verbatim>\<open>annealed_weight\<close> returns the weight
  unchanged, at every training step.
\<close>

theorem annealed_weight_identity:
  "annealed_weight w None None step = Inr w"
  by (simp add: annealed_weight_def)

subsection \<open>Label smoothing\<close>

text \<open>
  Claim C2. For softmax outputs whose rows have \<open>n_templates\<close> non-negative entries
  summing to 1 and for \<open>0 < eps \<le> 1\<close>, the inference head returns
  \<open>(1 - eps) * probs + eps / n_templates\<close>, every row of which sums to 1 and has all
  entries at least \<open>eps / n_templates\<close>; with \<open>eps = 0\<close> it returns \<open>probs\<close> unchanged.
\<close>

theorem label_smoothing:
  "(0 < eps \<and> eps \<le> 1 \<and> 0 < n_templates
      \<and> (\<forall>row\<in>set probs. length row = n_templates \<and> sum_list row = 1 \<and> (\<forall>pr\<in>set row. 0 \<le> pr))
     \<longrightarrow> (\<exists>probs'. get_inference (Some eps) n_templates probs dp
                        = Inr \<lparr>inf_probs = probs', inf_dp = dp\<rparr>
            \<and> probs' = map (map (\<lambda>pr. (1 - eps) * pr + eps / real n_templates)) probs
            \<and> (\<forall>row'\<in>set probs'. sum_list row' = 1
                   \<and> (\<forall>pr'\<in>set row'. eps / real n_templates \<le> pr'))))
   \<and> get_inference (Some 0) n_templates probs dp = Inr \<lparr>inf_probs = probs, inf_dp = dp\<rparr>"
proof (intro conjI impI)
  assume a: "0 < eps \<and> eps \<le> 1 \<and> 0 < n_templates
      \<and> (\<forall>row\<in>set probs. length row = n_templates \<and> sum_list row = 1 \<and> (\<forall>pr\<in>set row. 0 \<le> pr))"
  let ?f = "\<lambda>pr. (1 - eps) * pr + eps / real n_templates"
  have sums: "sum_list (map ?f row) = 1" if "row \<in> set probs" for row
  proof -
    have "length row = n_templates" "sum_list row = 1" using a that by auto
    then show ?thesis using a by (simp add: sum_list_affine)
  qed
  have low: "eps / real n_templates \<le> ?f pr" if "row \<in> set probs" "pr \<in> set row" for row pr
  proof -
    have "0 \<le> pr" using a that by auto
    then have "0 \<le> (1 - eps) * pr" using a by simp
    then show ?thesis by simp
  qed
  show "\<exists>probs'. get_inference (Some eps) n_templates probs dp
                        = Inr \<lparr>inf_probs = probs', inf_dp = dp\<rparr>
            \<and> probs' = map (map ?f) probs
            \<and> (\<forall>row'\<in>set probs'. sum_list row' = 1
                   \<and> (\<forall>pr'\<in>set row'. eps / real n_templates \<le> pr'))"
    using a sums low by (auto simp: get_inference_def)
next
  show "get_inference (Some 0) n_templates probs dp = Inr \<lparr>inf_probs = probs, inf_dp = dp\<rparr>"
    by (simp add: get_inference_def)
qed

theorem label_smoothing_witness:
  "get_inference (Some (1/10)) 2 [[1, 0], [1/4, 3/4]] []
     = Inr \<lparr>inf_probs = [[19/20, 1/20], [11/40, 29/40]], inf_dp = []\<rparr>
   \<and> sum_list [19/20, 1/20 :: real] = 1 \<and> sum_list [11/40, 29/40 :: real] = 1
   \<and> get_inference (Some 0) 2 [[1, 0], [1/4, 3/4]] []
     = Inr \<lparr>inf_probs = [[1, 0], [1/4, 3/4]], inf_dp = []\<rparr>"
  using label_smoothing [of "1/10" 2 "[[1, 0], [1/4, 3/4]]" "[]"]
  by simp

subsection \<open>Weighted Chamfer loss\<close>

lemma length_inferred_point_clouds:
  "length (get_inferred_point_clouds b p dp) = length dp"
  by (simp add: get_inferred_point_clouds_def)

lemma inferred_point_clouds_row:
  assumes "l < length dp"
  shows "length (get_inferred_point_clouds b p dp ! l)
           = min (length b) (min (length p) (length (dp ! l)))"
  using assms by (simp add: get_inferred_point_clouds_def)

lemma inferred_point_clouds_nth:
  assumes "l < length dp" "i < length b" "i < length p" "i < length (dp ! l)"
  shows "get_inferred_point_clouds b p dp ! l ! i = matmul (b ! i) (matadd (p ! i) (dp ! l ! i))"
  using assms by (simp add: get_inferred_point_clouds_def)

lemma stacked_losses:
  assumes "length clouds = nb" "length gt = nb" "0 < nb" 
    and "\<forall>r\<in>set clouds. length r = nt"
  shows "transpose (map (\<lambda>inferred. map2 chamfer inferred gt) (transpose clouds))
         = (if nt = 0 then [] else map2 (\<lambda>row g. map (\<lambda>c. chamfer c g) row) clouds gt)"
proof -
  have ne: "clouds \<noteq> []" using assms by auto
  have t1: "transpose clouds = map (\<lambda>i. map (\<lambda>r. r ! i) clouds) [0..<nt]"
    using ne assms(4) by (rule transpose_rect)
  let ?losses = "map (\<lambda>inferred. map2 chamfer inferred gt) (transpose clouds)"
  show ?thesis
  proof (cases "nt = 0")
    case True
    then show ?thesis by (simp add: t1)
  next
    case False
    have l1: "?losses = map (\<lambda>i. map2 chamfer (map (\<lambda>r. r ! i) clouds) gt) [0..<nt]"
      by (simp add: t1 comp_def)
    have ne2: "?losses \<noteq> []" using False by (simp add: l1)
    have len2: "\<forall>r\<in>set ?losses. length r = nb"
      using assms by (auto simp: l1)
    have "transpose ?losses = map (\<lambda>j. map (\<lambda>r. r ! j) ?losses) [0..<nb]"
      using ne2 len2 by (rule transpose_rect)
    also have "\<dots> = map2 (\<lambda>row g. map (\<lambda>c. chamfer c g) row) clouds gt"
    proof (rule nth_equalityI)
      show "length (map (\<lambda>j. map (\<lambda>r. r ! j) ?losses) [0..<nb])
            = length (map2 (\<lambda>row g. map (\<lambda>c. chamfer c g) row) clouds gt)"
        using assms by simp
    next
      fix j assume "j < length (map (\<lambda>j. map (\<lambda>r. r ! j) ?losses) [0..<nb])"
      then have j: "j < nb" by simp
      have rowlen: "length (clouds ! j) = nt" using assms j by auto
      have "map (\<lambda>r. r ! j) ?losses = map (\<lambda>i. chamfer (clouds ! j ! i) (gt ! j)) [0..<nt]"
        using assms j by (simp add: l1 comp_def)
      also have "\<dots> = map (\<lambda>c. chamfer c (gt ! j)) (clouds ! j)"
        using rowlen by (intro nth_equalityI) simp_all
      finally show "map (\<lambda>j. map (\<lambda>r. r ! j) ?losses) [0..<nb] ! j
            = map2 (\<lambda>row g. map (\<lambda>c. chamfer c g) row) clouds gt ! j"
        using assms j by simp
    qed
    finally show ?thesis using False by simp
  qed
qed

lemma get_chamfer_loss_sum:
  assumes "length dp = nb" "length gt = nb" "length gamma_t = nb"
    and "\<forall>r\<in>set gamma_t. length r = nt" and "\<forall>x\<in>set dp. length x = nt"
    and "length b = nt" "length p = nt"
  shows "get_chamfer_loss chamfer b p gamma_t dp gt
         = (\<Sum>l<nb. \<Sum>i<nt. gamma_t ! l ! i
               * chamfer (get_inferred_point_clouds b p dp ! l ! i) (gt ! l))"
proof (cases "nb = 0 \<or> nt = 0")
  case True
  then show ?thesis
  proof
    assume "nb = 0"
    then show ?thesis using assms
      by (simp add: get_chamfer_loss_def get_inferred_point_clouds_def reduce_sum_def)
  next
    assume nt: "nt = 0"
    show ?thesis
    proof (cases "nb = 0")
      case True
      then show ?thesis using assms
        by (simp add: get_chamfer_loss_def get_inferred_point_clouds_def reduce_sum_def)
    next
      case False
      let ?clouds = "get_inferred_point_clouds b p dp"
      have "\<forall>r\<in>set ?clouds. length r = nt"
        using assms nt by (auto simp: get_inferred_point_clouds_def)
      then have "transpose (map (\<lambda>inferred. map2 chamfer inferred gt) (transpose ?clouds)) = []"
        using stacked_losses [of ?clouds nb gt nt chamfer] assms False nt
        by (simp add: length_inferred_point_clouds)
      then show ?thesis using nt
        by (simp add: get_chamfer_loss_def reduce_sum_def)
    qed
  qed
next
  case False
  then have nb: "0 < nb" and nt: "0 < nt" by auto
  let ?clouds = "get_inferred_point_clouds b p dp"
  have rows: "\<forall>r\<in>set ?clouds. length r = nt"
    using assms by (auto simp: get_inferred_point_clouds_def)
  have len: "length ?clouds = nb" using assms by (simp add: length_inferred_point_clouds)
  let ?st = "map2 (\<lambda>row g. map (\<lambda>c. chamfer c g) row) ?clouds gt"
  have st: "transpose (map (\<lambda>inferred. map2 chamfer inferred gt) (transpose ?clouds)) = ?st"
    using stacked_losses [OF len assms(2) nb rows, of chamfer] nt by simp
  have stlen: "length ?st = nb" using len assms by simp
  have strows: "\<forall>r\<in>set ?st. length r = nt"
    using rows by (auto simp: set_zip)
  have "get_chamfer_loss chamfer b p gamma_t dp gt = reduce_sum (map2 (map2 (*)) gamma_t ?st)"
    by (simp add: get_chamfer_loss_def Let_def st)
  also have "\<dots> = (\<Sum>l<nb. \<Sum>i<nt. gamma_t ! l ! i * ?st ! l ! i)"
    using assms(3) stlen assms(4) strows by (rule reduce_sum_map2)
  also have "\<dots> = (\<Sum>l<nb. \<Sum>i<nt. gamma_t ! l ! i * chamfer (?clouds ! l ! i) (gt ! l))"
  proof (intro sum.cong refl)
    fix l i assume "l \<in> {..<nb}" "i \<in> {..<nt}"
    then have l: "l < nb" and i: "i < nt" by auto
    have "length (?clouds ! l) = nt" using rows len l by auto
    then show "gamma_t ! l ! i * ?st ! l ! i = gamma_t ! l ! i * chamfer (?clouds ! l ! i) (gt ! l)"
      using l i len assms(2) by simp
  qed
  finally show ?thesis .
qed

lemma get_chamfer_loss_gamma:
  assumes "length probs = nb" "length dp = nb" "length gt = nb"
    and "\<forall>r\<in>set probs. length r = nt" and "\<forall>x\<in>set dp. length x = nt"
    and "length b = nt" "length p = nt"
  shows "get_chamfer_loss chamfer b p (map (map g) probs) dp gt
         = spec_chamfer_loss g chamfer nb nt (get_inferred_point_clouds b p dp) probs gt"
proof -
  have "get_chamfer_loss chamfer b p (map (map g) probs) dp gt
        = (\<Sum>l<nb. \<Sum>i<nt. map (map g) probs ! l ! i
               * chamfer (get_inferred_point_clouds b p dp ! l ! i) (gt ! l))"
    using assms by (intro get_chamfer_loss_sum) simp_all
  also have "\<dots> = (\<Sum>l<nb. \<Sum>i<nt. g (probs ! l ! i)
               * chamfer (get_inferred_point_clouds b p dp ! l ! i) (gt ! l))"
  proof (intro sum.cong refl)
    fix l i assume "l \<in> {..<nb}" "i \<in> {..<nt}"
    then have "l < length probs" "i < length (probs ! l)" using assms by auto
    then show "map (map g) probs ! l ! i * chamfer (get_inferred_point_clouds b p dp ! l ! i) (gt ! l)
      = g (probs ! l ! i) * chamfer (get_inferred_point_clouds b p dp ! l ! i) (gt ! l)"
      by simp
  qed
  finally show ?thesis by (simp add: spec_chamfer_loss_def)
qed

lemma inference_loss_summaries:
  "gamma_from_code (case gamma prm of None \<Rightarrow> ''linear'' | Some g \<Rightarrow> g) probs = Inr gamma_t \<Longrightarrow>
   \<exists>rest. fst (get_inference_loss prm chamfer b p \<lparr>inf_probs = probs, inf_dp = dp\<rparr> gt step)
      = (''chamfer'', get_chamfer_loss chamfer b p gamma_t dp gt) # rest"
  by (auto simp: get_inference_loss_def Let_def add_entropy_loss_def add_dp_reg_loss_def
      split: option.splits sum.splits prod.splits)

text \<open>
  Claim C1. For tensors of the shapes the builder fixes (\<open>nb\<close> examples, \<open>nt\<close>
  templates), the Chamfer term computed and recorded by \<^verbatim>\<open>get_inference_loss\<close> is the
  sum over batch elements and templates of \<open>gamma (probs[l,t]) * chamfer (cloud[l,t],
  ground_truth[l])\<close> over the reconstructed clouds, with \<open>gamma p = p\<close> in linear mode
  (also the default when no mode is given), \<open>p\<^sup>2\<close> in square mode and \<open>- ln (1 - p)\<close> in
  log mode.
\<close>

theorem weighted_chamfer_loss:
  assumes "length probs = nb" "length dp = nb" "length gt = nb"
    and "\<forall>r\<in>set probs. length r = nt" and "\<forall>x\<in>set dp. length x = nt"
    and "length b = nt" "length p = nt"
    and "cloud = get_inferred_point_clouds b p dp"
    and "loss = get_inference_loss prm chamfer b p \<lparr>inf_probs = probs, inf_dp = dp\<rparr> gt step"
  shows "(gamma prm = None \<or> gamma prm = Some ''linear'' \<longrightarrow>
            (\<exists>rest. fst loss
               = (''chamfer'', spec_chamfer_loss (\<lambda>pr. pr) chamfer nb nt cloud probs gt) # rest))
       \<and> (gamma prm = Some ''square'' \<longrightarrow>
            (\<exists>rest. fst loss
               = (''chamfer'', spec_chamfer_loss (\<lambda>pr. pr\<^sup>2) chamfer nb nt cloud probs gt) # rest))
       \<and> (gamma prm = Some ''log'' \<longrightarrow>
            (\<exists>rest. fst loss
               = (''chamfer'', spec_chamfer_loss (\<lambda>pr. - ln (1 - pr)) chamfer nb nt cloud probs gt) # rest))"
proof (intro conjI impI)
  assume "gamma prm = None \<or> gamma prm = Some ''linear''"
  then have "gamma_from_code (case gamma prm of None \<Rightarrow> ''linear'' | Some g \<Rightarrow> g) probs
             = Inr (map (map (\<lambda>pr. pr)) probs)"
    by (auto simp: gamma_from_code_def)
  from inference_loss_summaries [OF this, of chamfer b p dp gt step]
  show "\<exists>rest. fst loss
               = (''chamfer'', spec_chamfer_loss (\<lambda>pr. pr) chamfer nb nt cloud probs gt) # rest"
    using get_chamfer_loss_gamma [OF assms(1-7), of chamfer "\<lambda>pr. pr"] assms(8,9) by simp
next
  assume "gamma prm = Some ''square''"
  then have "gamma_from_code (case gamma prm of None \<Rightarrow> ''linear'' | Some g \<Rightarrow> g) probs
             = Inr (map (map (\<lambda>pr. pr\<^sup>2)) probs)"
    by (simp add: gamma_from_code_def)
  from inference_loss_summaries [OF this, of chamfer b p dp gt step]
  show "\<exists>rest. fst loss
               = (''chamfer'', spec_chamfer_loss (\<lambda>pr. pr\<^sup>2) chamfer nb nt cloud probs gt) # rest"
    using get_chamfer_loss_gamma [OF assms(1-7), of chamfer "\<lambda>pr. pr\<^sup>2"] assms(8,9) by simp
next
  assume "gamma prm = Some ''log''"
  then have "gamma_from_code (case gamma prm of None \<Rightarrow> ''linear'' | Some g \<Rightarrow> g) probs
             = Inr (map (map (\<lambda>pr. - ln (1 - pr))) probs)"
    by (simp add: gamma_from_code_def)
  from inference_loss_summaries [OF this, of chamfer b p dp gt step]
  show "\<exists>rest. fst loss
               = (''chamfer'', spec_chamfer_loss (\<lambda>pr. - ln (1 - pr)) chamfer nb nt cloud probs gt) # rest"
    using get_chamfer_loss_gamma [OF assms(1-7), of chamfer "\<lambda>pr. - ln (1 - pr)"] assms(8,9) by simp
qed

theorem weighted_chamfer_loss_witness:
  "\<exists>rest. fst (get_inference_loss
              \<lparr>gamma = Some ''square'', entropy_loss = None, dp_regularization = None\<rparr>
              (\<lambda>a g. 1) [[[1]], [[2]]] [[[1]], [[1]]]
              \<lparr>inf_probs = [[1/4, 3/4]], inf_dp = [[[[0]], [[0]]]]\<rparr> [[[1]]] 0)
     = (''chamfer'', spec_chamfer_loss (\<lambda>pr. pr\<^sup>2) (\<lambda>a g. 1) 1 2
          (get_inferred_point_clouds [[[1]], [[2]]] [[[1]], [[1]]] [[[[0]], [[0]]]])
          [[1/4, 3/4]] [[[1]]]) # rest"
  using weighted_chamfer_loss [of "[[1/4, 3/4]]" 1 "[[[[0]], [[0]]]]" "[[[1]]]" 2
      "[[[1]], [[2]]]" "[[[1]], [[1]]]"
      "get_inferred_point_clouds [[[1]], [[2]]] [[[1]], [[1]]] [[[[0]], [[0]]]]"
      "get_inference_loss
              \<lparr>gamma = Some ''square'', entropy_loss = None, dp_regularization = None\<rparr>
              (\<lambda>a g. 1) [[[1]], [[2]]] [[[1]], [[1]]]
              \<lparr>inf_probs = [[1/4, 3/4]], inf_dp = [[[[0]], [[0]]]]\<rparr> [[[1]]] 0"
      "\<lparr>gamma = Some ''square'', entropy_loss = None, dp_regularization = None\<rparr>"
      "\<lambda>a g. 1" 0]
  by simp

subsection \<open>Unrecognized gamma mode\<close>

text \<open>
  Claim C8. When the configured gamma mode is none of \<^verbatim>\<open>linear\<close>, \<^verbatim>\<open>square\<close>, \<^verbatim>\<open>log\<close>,
  \<^verbatim>\<open>get_inference_loss\<close> raises the \<^verbatim>\<open>ValueError\<close> naming the value, with no summary
  recorded: none of the Chamfer, entropy and deformation terms has been computed, whatever
  the rest of the configuration and the inputs are.
\<close>

theorem unrecognized_gamma_raises:
  "gamma prm = Some g \<Longrightarrow> g \<noteq> ''linear'' \<Longrightarrow> g \<noteq> ''square'' \<Longrightarrow> g \<noteq> ''log'' \<Longrightarrow>
   get_inference_loss prm chamfer b p inference labels step
     = ([], Inl (ValueError (''Unrecognized gamma value in params: '' @ g)))"
  by (simp add: get_inference_loss_def gamma_from_code_def)

theorem unrecognized_gamma_raises_witness:
  "get_inference_loss
     \<lparr>gamma = Some ''cubic'',
      entropy_loss = Some \<lparr>weight = 1, linear_annealing_cutoff = Some 1,
                            exp_annealing_rate = Some 1\<rparr>,
      dp_regularization = None\<rparr>
     (\<lambda>a g. 1) [[[1]]] [[[1]]] \<lparr>inf_probs = [[1]], inf_dp = [[[[0]]]]\<rparr> [[[1]]] 0
   = ([], Inl (ValueError ''Unrecognized gamma value in params: cubic''))"
  using unrecognized_gamma_raises [of
      "\<lparr>gamma = Some ''cubic'',
      entropy_loss = Some \<lparr>weight = 1, linear_annealing_cutoff = Some 1,
                            exp_annealing_rate = Some 1\<rparr>,
      dp_regularization = None\<rparr>" "''cubic''" "\<lambda>a g. 1" "[[[1]]]" "[[[1]]]"
      "\<lparr>inf_probs = [[1]], inf_dp = [[[[0]]]]\<rparr>" "[[[1]]]" 0]
  by simp

subsection \<open>Deformation regularizer\<close>

lemma reduce_sum_squares:
  "reduce_sum (map (map (\<lambda>v. v\<^sup>2)) m) = sum_sq m"
proof -
  have "reduce_sum (map (map (\<lambda>v. v\<^sup>2)) m) = sum_list (map (\<lambda>r. sum_list (map (\<lambda>v. v\<^sup>2) r)) m)"
    by (simp add: reduce_sum_def comp_def)
  also have "\<dots> = (\<Sum>k<length m. sum_list (map (\<lambda>v. v\<^sup>2) (m ! k)))"
    by (rule sum_list_map_nth)
  also have "\<dots> = (\<Sum>k<length m. \<Sum>c<length (m ! k). (m ! k ! c)\<^sup>2)"
    by (simp add: sum_list_map_nth)
  finally show ?thesis by (simp add: sum_sq_def)
qed

lemma reduce_sum_sq_uniform:
  "reduce_sum (reduce_sum_sq_axis23 dp)
     = (\<Sum>l<length dp. \<Sum>t<length (dp ! l). sum_sq (dp ! l ! t))"
proof -
  have "reduce_sum_sq_axis23 dp = map (map sum_sq) dp"
    by (simp add: reduce_sum_sq_axis23_def reduce_sum_squares)
  then have "reduce_sum (reduce_sum_sq_axis23 dp)
        = sum_list (map (\<lambda>x. sum_list (map sum_sq x)) dp)"
    by (simp add: reduce_sum_def comp_def)
  also have "\<dots> = (\<Sum>l<length dp. sum_list (map sum_sq (dp ! l)))"
    by (rule sum_list_map_nth)
  also have "\<dots> = (\<Sum>l<length dp. \<Sum>t<length (dp ! l). sum_sq (dp ! l ! t))"
    by (simp add: sum_list_map_nth)
  finally show ?thesis .
qed

lemma reduce_sum_sq_weighted:
  assumes "length probs = length dp"
    and "\<forall>l<length dp. length (probs ! l) = length (dp ! l)"
  shows "reduce_sum (map2 (map2 (*)) (reduce_sum_sq_axis23 dp) probs)
     = (\<Sum>l<length dp. \<Sum>t<length (dp ! l). probs ! l ! t * sum_sq (dp ! l ! t))"
proof -
  let ?S = "reduce_sum_sq_axis23 dp"
  have len: "length ?S = length dp" by (simp add: reduce_sum_sq_axis23_def)
  have "reduce_sum (map2 (map2 (*)) ?S probs)
        = sum_list (map2 (\<lambda>x y. sum_list (map2 (*) x y)) ?S probs)"
    by (simp add: reduce_sum_def map_zip_map2 comp_def case_prod_unfold)
  also have "\<dots> = (\<Sum>l<length dp. sum_list (map2 (*) (?S ! l) (probs ! l)))"
    using assms len by (simp add: sum_list_map2_nth)
  also have "\<dots> = (\<Sum>l<length dp. \<Sum>t<length (dp ! l). probs ! l ! t * sum_sq (dp ! l ! t))"
  proof (intro sum.cong refl)
    fix l assume "l \<in> {..<length dp}"
    then have l: "l < length dp" by simp
    have Sl: "?S ! l = map sum_sq (dp ! l)"
      using l by (simp add: reduce_sum_sq_axis23_def reduce_sum_squares)
    have pl: "length (probs ! l) = length (dp ! l)" using assms l by simp
    have "sum_list (map2 (*) (?S ! l) (probs ! l))
          = (\<Sum>t<length (dp ! l). (map sum_sq (dp ! l)) ! t * probs ! l ! t)"
      using pl by (simp add: Sl sum_list_map2_nth)
    also have "\<dots> = (\<Sum>t<length (dp ! l). probs ! l ! t * sum_sq (dp ! l ! t))"
      by (intro sum.cong refl) (simp add: mult.commute)
    finally show "sum_list (map2 (*) (?S ! l) (probs ! l))
          = (\<Sum>t<length (dp ! l). probs ! l ! t * sum_sq (dp ! l ! t))" .
  qed
  finally show ?thesis .
qed

text \<open>
  Claim C7. Whenever the annealed weight \<open>aw\<close> exists: in uniform mode
  \<^verbatim>\<open>get_dp_reg_loss\<close> is \<open>aw\<close> times the sum of all squared entries of \<open>dp\<close> and is the
  same for any two \<open>probs\<close>; in default mode, for \<open>probs\<close> of the shape of the first
  two axes of \<open>dp\<close>, it is \<open>aw\<close> times the sum over batch elements and templates of
  \<open>probs[l,t]\<close> times the sum of the squared entries of \<open>dp[l,t]\<close>.
\<close>

theorem dp_reg_loss_modes:
  assumes "annealed_weight_kw kw step = Inr aw"
  shows "get_dp_reg_loss probs dp True kw step
           = Inr (aw * (\<Sum>l<length dp. \<Sum>t<length (dp ! l). sum_sq (dp ! l ! t)))
       \<and> get_dp_reg_loss probs' dp True kw step = get_dp_reg_loss probs dp True kw step
       \<and> (length probs = length dp \<and> (\<forall>l<length dp. length (probs ! l) = length (dp ! l)) \<longrightarrow>
            get_dp_reg_loss probs dp False kw step
              = Inr (aw * (\<Sum>l<length dp. \<Sum>t<length (dp ! l).
                              probs ! l ! t * sum_sq (dp ! l ! t))))"
proof (intro conjI impI)
  show "get_dp_reg_loss probs dp True kw step
           = Inr (aw * (\<Sum>l<length dp. \<Sum>t<length (dp ! l). sum_sq (dp ! l ! t)))"
    using assms by (simp add: get_dp_reg_loss_def ebind_def reduce_sum_sq_uniform)
next
  show "get_dp_reg_loss probs' dp True kw step = get_dp_reg_loss probs dp True kw step"
    by (simp add: get_dp_reg_loss_def)
next
  assume "length probs = length dp \<and> (\<forall>l<length dp. length (probs ! l) = length (dp ! l))"
  then show "get_dp_reg_loss probs dp False kw step
              = Inr (aw * (\<Sum>l<length dp. \<Sum>t<length (dp ! l).
                              probs ! l ! t * sum_sq (dp ! l ! t)))"
    using assms by (simp add: get_dp_reg_loss_def ebind_def reduce_sum_sq_weighted)
qed

lemma sum_sq_eval: "sum_sq [[1, 2, 0]] = 5" "sum_sq [[0, 3, 0]] = 9"
  by (simp_all add: sum_sq_def lessThan_Suc numeral_3_eq_3)

theorem dp_reg_loss_modes_witness:
  "annealed_weight_kw \<lparr>weight = 2, linear_annealing_cutoff = Some 10, exp_annealing_rate = None\<rparr> 5
     = Inr 1
   \<and> get_dp_reg_loss [[1/4, 3/4]] [[[[1, 2, 0]], [[0, 3, 0]]]] True
        \<lparr>weight = 2, linear_annealing_cutoff = Some 10, exp_annealing_rate = None\<rparr> 5 = Inr 14
   \<and> get_dp_reg_loss [[1, 0]] [[[[1, 2, 0]], [[0, 3, 0]]]] True
        \<lparr>weight = 2, linear_annealing_cutoff = Some 10, exp_annealing_rate = None\<rparr> 5 = Inr 14
   \<and> get_dp_reg_loss [[1/4, 3/4]] [[[[1, 2, 0]], [[0, 3, 0]]]] False
        \<lparr>weight = 2, linear_annealing_cutoff = Some 10, exp_annealing_rate = None\<rparr> 5 = Inr 8"
proof -
  have aw: "annealed_weight_kw
      \<lparr>weight = 2, linear_annealing_cutoff = Some 10, exp_annealing_rate = None\<rparr> 5 = Inr 1"
    by (simp add: annealed_weight_kw_def annealed_weight_def linear_annealing_factor_def)
  show ?thesis
    using dp_reg_loss_modes [OF aw, of "[[1/4, 3/4]]" "[[[[1, 2, 0]], [[0, 3, 0]]]]" "[[1, 0]]"] aw
    by (simp add: lessThan_Suc sum_sq_eval)
qed

subsection \<open>Entropy regularizer\<close>

lemma xlnx_lower:
  fixes x :: real
  assumes "0 < x" "0 < n"
  shows "0 \<le> x * ln x + x * ln (real n) - x + 1 / real n"
    and "x * ln x + x * ln (real n) - x + 1 / real n = 0 \<longleftrightarrow> x = 1 / real n"
proof -
  define y where "y = 1 / (real n * x)"
  have ypos: "0 < y" using assms by (simp add: y_def)
  have lny: "ln y = - ln (real n) - ln x"
    using assms by (simp add: y_def ln_div ln_mult)
  have xy: "x * y = 1 / real n" using assms by (simp add: y_def)
  have eq: "x * ln x + x * ln (real n) - x + 1 / real n = x * (y - 1 - ln y)"
    by (simp add: lny algebra_simps xy)
  have "0 \<le> y - 1 - ln y" using ln_le_minus_one [OF ypos] by simp
  then show "0 \<le> x * ln x + x * ln (real n) - x + 1 / real n"
    using assms by (simp add: eq)
  show "x * ln x + x * ln (real n) - x + 1 / real n = 0 \<longleftrightarrow> x = 1 / real n"
  proof
    assume "x * ln x + x * ln (real n) - x + 1 / real n = 0"
    then have "x * (y - 1 - ln y) = 0" by (simp add: eq)
    then have "ln y = y - 1" using assms by simp
    then have "y = 1" using ln_eq_minus_one [OF ypos] by simp
    then show "x = 1 / real n" using assms by (simp add: y_def field_simps)
  next
    assume "x = 1 / real n"
    then have "y = 1" using assms by (simp add: y_def)
    then show "x * ln x + x * ln (real n) - x + 1 / real n = 0" by (simp add: eq)
  qed
qed

lemma sum_list_gap:
  fixes c d :: real
  shows "sum_list (map (\<lambda>x. x * ln x + x * c - x + d) xs)
         = sum_list (map (\<lambda>x. x * ln x) xs) + (c - 1) * sum_list xs + d * real (length xs)"
  by (induction xs) (simp_all add: algebra_simps)

lemma neg_entropy_lower:
  fixes ms :: "real list"
  assumes "length ms = n" "\<forall>m\<in>set ms. 0 < m" "sum_list ms = 1"
  shows "- ln (real n) \<le> sum_list (map (\<lambda>m. m * ln m) ms)"
    and "sum_list (map (\<lambda>m. m * ln m) ms) = - ln (real n) \<longleftrightarrow> (\<forall>m\<in>set ms. m = 1 / real n)"
proof -
  have npos: "0 < n" using assms by (cases ms) auto
  let ?g = "\<lambda>x. x * ln x + x * ln (real n) - x + 1 / real n"
  have "sum_list (map ?g ms)
        = sum_list (map (\<lambda>m. m * ln m) ms) + (ln (real n) - 1) * sum_list ms
          + 1 / real n * real (length ms)"
    by (rule sum_list_gap)
  also have "\<dots> = sum_list (map (\<lambda>m. m * ln m) ms) + ln (real n)"
    using assms npos by simp
  finally have gap: "sum_list (map ?g ms) = sum_list (map (\<lambda>m. m * ln m) ms) + ln (real n)" .
  have nonneg: "0 \<le> y" if "y \<in> set (map ?g ms)" for y
    using that assms(2) xlnx_lower(1) [OF _ npos] by auto
  have "0 \<le> sum_list (map ?g ms)"
    by (rule sum_list_nonneg) (use nonneg in auto)
  then show "- ln (real n) \<le> sum_list (map (\<lambda>m. m * ln m) ms)"
    by (simp add: gap)
  have "sum_list (map (\<lambda>m. m * ln m) ms) = - ln (real n) \<longleftrightarrow> sum_list (map ?g ms) = 0"
    by (simp add: gap) linarith
  also have "\<dots> \<longleftrightarrow> (\<forall>y\<in>set (map ?g ms). y = 0)"
    by (rule sum_list_nonneg_eq_0_iff) (use nonneg in auto)
  also have "\<dots> \<longleftrightarrow> (\<forall>m\<in>set ms. ?g m = 0)" by auto
  also have "\<dots> \<longleftrightarrow> (\<forall>m\<in>set ms. m = 1 / real n)"
    using assms(2) xlnx_lower(2) [OF _ npos] by auto
  finally show "sum_list (map (\<lambda>m. m * ln m) ms) = - ln (real n) \<longleftrightarrow> (\<forall>m\<in>set ms. m = 1 / real n)" .
qed

lemma mean_probs_eval:
  "reduce_mean_axis0 [[1/4, 3/4], [3/4, 1/4]] = [1/2, 1/2]"
  "reduce_mean_axis0 [[1/4, 3/4], [1/4, 3/4]] = [1/4, 3/4]"
  by (simp_all add: reduce_mean_axis0_def)

lemma ln_16_27: "4 * ln (2::real) < 3 * ln 3"
proof -
  have "ln ((2::real) ^ 4) < ln (3 ^ 3)" by (subst ln_less_cancel_iff) simp_all
  then show ?thesis by (simp only: ln_realpow)
qed

text \<open>
  Claim C6, as amended. For a batch whose mean probabilities are positive and sum to 1
  over \<open>n\<close> templates, the entropy term \<open>sum (mean_probs * log mean_probs)\<close> is at least
  \<open>- ln n\<close>, and it equals \<open>- ln n\<close> exactly when \<open>mean_probs\<close> is uniform: the term is
  minimal (most negative) at the uniform distribution and strictly larger for every
  other distribution with the same support.
\<close>

theorem entropy_term_minimal_at_uniform:
  assumes "mean_probs = reduce_mean_axis0 probs"
    and "length mean_probs = n" and "\<forall>m\<in>set mean_probs. 0 < m" and "sum_list mean_probs = 1"
  shows "- ln (real n) \<le> entropy_term probs
       \<and> (entropy_term probs = - ln (real n) \<longleftrightarrow> (\<forall>m\<in>set mean_probs. m = 1 / real n))"
  using neg_entropy_lower [OF assms(2,3,4)] assms(1) by (simp add: entropy_term_def)

theorem entropy_term_minimal_at_uniform_witness:
  "reduce_mean_axis0 [[1/4, 3/4], [3/4, 1/4]] = [1/2, 1/2]
   \<and> entropy_term [[1/4, 3/4], [3/4, 1/4]] = - ln 2"
  using entropy_term_minimal_at_uniform
          [of "[1/2, 1/2]" "[[1/4, 3/4], [3/4, 1/4]]" 2] mean_probs_eval
  by simp

text \<open>
  The claim as first stated (the term is maximal at the uniform distribution) fails: a
  batch with uniform mean has a strictly smaller entropy term than a batch with the
  non-uniform mean \<open>[1/4, 3/4]\<close>.
\<close>

theorem entropy_term_uniform_not_maximal:
  "entropy_term [[1/4, 3/4], [3/4, 1/4]] < entropy_term [[1/4, 3/4], [1/4, 3/4]]"
proof -
  have a: "entropy_term [[1/4, 3/4], [3/4, 1/4]] = - ln 2"
    by (simp add: entropy_term_def mean_probs_eval ln_div)
  have "ln (4::real) = ln (2 ^ 2)" by simp
  then have l4: "ln (4::real) = 2 * ln 2" by (simp only: ln_realpow of_nat_numeral)
  have b: "entropy_term [[1/4, 3/4], [1/4, 3/4]] = 3/4 * ln 3 - 2 * ln 2"
    by (simp add: entropy_term_def mean_probs_eval ln_div l4 algebra_simps)
  show ?thesis using ln_16_27 by (simp add: a b)
qed

subsection \<open>Selecting the best template\<close>

lemma argmax_from_first_max:
  assumes "j = length pre" "bi < j" "best = pre ! bi"
    and "\<forall>k<j. pre ! k \<le> best" and "\<forall>k<bi. pre ! k < best"
  shows "argmax_from xs j best bi < length (pre @ xs)
       \<and> (\<forall>k<length (pre @ xs). (pre @ xs) ! k \<le> (pre @ xs) ! argmax_from xs j best bi)
       \<and> (\<forall>k<argmax_from xs j best bi. (pre @ xs) ! k < (pre @ xs) ! argmax_from xs j best bi)"
  using assms
proof (induction xs arbitrary: pre j best bi)
  case Nil
  then show ?case by simp
next
  case (Cons x xs)
  have app: "pre @ x # xs = (pre @ [x]) @ xs" by simp
  show ?case
  proof (cases "best < x")
    case True
    have "argmax_from xs (Suc j) x j < length ((pre @ [x]) @ xs)
       \<and> (\<forall>k<length ((pre @ [x]) @ xs).
             ((pre @ [x]) @ xs) ! k \<le> ((pre @ [x]) @ xs) ! argmax_from xs (Suc j) x j)
       \<and> (\<forall>k<argmax_from xs (Suc j) x j.
             ((pre @ [x]) @ xs) ! k < ((pre @ [x]) @ xs) ! argmax_from xs (Suc j) x j)"
    proof (rule Cons.IH)
      show "Suc j = length (pre @ [x])" using Cons.prems by simp
      show "j < Suc j" by simp
      show "x = (pre @ [x]) ! j" using Cons.prems by (simp add: nth_append)
      show "\<forall>k<Suc j. (pre @ [x]) ! k \<le> x"
        using Cons.prems True by (auto simp: nth_append less_Suc_eq)
      show "\<forall>k<j. (pre @ [x]) ! k < x"
        using Cons.prems True by (auto simp: nth_append)
    qed
    then show ?thesis using True unfolding app by simp
  next
    case False
    have "argmax_from xs (Suc j) best bi < length ((pre @ [x]) @ xs)
       \<and> (\<forall>k<length ((pre @ [x]) @ xs).
             ((pre @ [x]) @ xs) ! k \<le> ((pre @ [x]) @ xs) ! argmax_from xs (Suc j) best bi)
       \<and> (\<forall>k<argmax_from xs (Suc j) best bi.
             ((pre @ [x]) @ xs) ! k < ((pre @ [x]) @ xs) ! argmax_from xs (Suc j) best bi)"
    proof (rule Cons.IH)
      show "Suc j = length (pre @ [x])" using Cons.prems by simp
      show "bi < Suc j" using Cons.prems by simp
      show "best = (pre @ [x]) ! bi" using Cons.prems by (simp add: nth_append)
      show "\<forall>k<Suc j. (pre @ [x]) ! k \<le> best"
        using Cons.prems False by (auto simp: nth_append less_Suc_eq)
      show "\<forall>k<bi. (pre @ [x]) ! k < best"
        using Cons.prems by (auto simp: nth_append)
    qed
    then show ?thesis using False unfolding app by simp
  qed
qed

lemma argmax_first_max:
  assumes "probs \<noteq> []"
  shows "\<exists>i. argmax probs = Inr i \<and> i < length probs
           \<and> (\<forall>j<length probs. probs ! j \<le> probs ! i)
           \<and> (\<forall>j<i. probs ! j < probs ! i)"
proof -
  obtain x rest where pr: "probs = x # rest" using assms by (cases probs) auto
  have "argmax_from rest 1 x 0 < length ([x] @ rest)
       \<and> (\<forall>k<length ([x] @ rest). ([x] @ rest) ! k \<le> ([x] @ rest) ! argmax_from rest 1 x 0)
       \<and> (\<forall>k<argmax_from rest 1 x 0. ([x] @ rest) ! k < ([x] @ rest) ! argmax_from rest 1 x 0)"
    by (rule argmax_from_first_max) simp_all
  then show ?thesis by (simp add: pr argmax_def)
qed

lemma argmax_Inr_first_max:
  assumes "argmax probs = Inr i"
  shows "i < length probs \<and> (\<forall>j<length probs. probs ! j \<le> probs ! i)
           \<and> (\<forall>j<i. probs ! j < probs ! i)"
proof -
  have "probs \<noteq> []" using assms by (auto simp: argmax_def)
  from argmax_first_max [OF this] assms show ?thesis by auto
qed

lemma matmul_nth:
  assumes "j < length a" "length (a ! j) = K" "length x = K"
    and "\<forall>r\<in>set x. length r = C" and "0 < K" "c < C"
  shows "matmul a x ! j ! c = (\<Sum>k<K. a ! j ! k * x ! k ! c)"
proof -
  have ne: "x \<noteq> []" using assms by auto
  have tr: "transpose x = map (\<lambda>i. map (\<lambda>r. r ! i) x) [0..<C]"
    using ne assms(4) by (rule transpose_rect)
  have "matmul a x ! j ! c = sum_list (map2 (*) (a ! j) (map (\<lambda>r. r ! c) x))"
    using assms by (simp add: matmul_def tr)
  also have "\<dots> = (\<Sum>k<K. a ! j ! k * map (\<lambda>r. r ! c) x ! k)"
    using assms by (simp add: sum_list_map2_nth)
  also have "\<dots> = (\<Sum>k<K. a ! j ! k * x ! k ! c)"
    using assms by (intro sum.cong refl) simp
  finally show ?thesis .
qed

lemma matadd_shape:
  assumes "length P = K" "length D = K"
    and "\<forall>r\<in>set P. length r = C" and "\<forall>r\<in>set D. length r = C"
  shows "length (matadd P D) = K" and "\<forall>r\<in>set (matadd P D). length r = C"
    and "k < K \<Longrightarrow> c < C \<Longrightarrow> matadd P D ! k ! c = P ! k ! c + D ! k ! c"
proof -
  show "length (matadd P D) = K" using assms by (simp add: matadd_def)
  show "\<forall>r\<in>set (matadd P D). length r = C"
    using assms by (auto simp: matadd_def set_zip)
  show "matadd P D ! k ! c = P ! k ! c + D ! k ! c" if "k < K" "c < C"
  proof -
    have "length (P ! k) = C" "length (D ! k) = C" using assms that by auto
    then show ?thesis using assms that by (simp add: matadd_def)
  qed
qed

lemma deformed_vertices_entries:
  assumes "0 < K" "length P = K" "length D = K"
    and "\<forall>r\<in>set P. length r = C" and "\<forall>r\<in>set D. length r = C"
    and "\<forall>r\<in>set B. length r = K"
  shows "length (matmul B (matadd P D)) = length B
       \<and> (\<forall>j<length B. \<forall>c<C. matmul B (matadd P D) ! j ! c = spec_deformed_entry B P D j c)"
proof (intro conjI allI impI)
  show "length (matmul B (matadd P D)) = length B" by (simp add: matmul_def)
next
  fix j c assume j: "j < length B" and c: "c < C"
  have rowlen: "length (B ! j) = K" using assms(6) j by auto
  have "matmul B (matadd P D) ! j ! c = (\<Sum>k<K. B ! j ! k * matadd P D ! k ! c)"
    using j rowlen matadd_shape(1,2) [OF assms(2-5)] assms(1) c by (rule matmul_nth)
  also have "\<dots> = (\<Sum>k<K. B ! j ! k * (P ! k ! c + D ! k ! c))"
    using matadd_shape(3) [OF assms(2-5)] c by (intro sum.cong refl) simp
  finally show "matmul B (matadd P D) ! j ! c = spec_deformed_entry B P D j c"
    using assms(2) by (simp add: spec_deformed_entry_def)
qed

text \<open>
  Claim C4. For a non-empty \<open>probs\<close> over the stored templates, the best-mesh
  prediction selects the index \<open>i\<close> of the maximum of \<open>probs\<close>, the lowest such index
  when the maximum occurs several times, and returns the vertices
  \<open>B\<^sub>i \<cdot> (P\<^sub>i + dp[i])\<close> computed from the stored (not resampled) basis, the faces of
  template \<open>i\<close>, its undeformed vertices and its identifier. For arrays of the
  shapes the builder fixes, entry \<open>(j, c)\<close> of the vertices is
  \<open>\<Sum>k. B\<^sub>i[j,k] * (P\<^sub>i[k,c] + dp[i][k,c])\<close>.
\<close>

theorem best_mesh_prediction:
  assumes "probs \<noteq> []" and "length probs \<le> n"
    and "length (bs d) = n" "length (ps d) = n" "length dp = n"
    and "length (all_faces d) = n" "length (all_vertices d) = n" "length (example_ids d) = n"
  shows "\<exists>i r. i < length probs
          \<and> (\<forall>j<length probs. probs ! j \<le> probs ! i) \<and> (\<forall>j<i. probs ! j < probs ! i)
          \<and> get_prediction_to_mesh_fn d probs dp = Inr r
          \<and> vertices r = matmul (bs d ! i) (matadd (ps d ! i) (dp ! i))
          \<and> faces r = all_faces d ! i
          \<and> original_vertices r = all_vertices d ! i
          \<and> template_id r = example_ids d ! i
          \<and> (0 < K \<and> length (ps d ! i) = K \<and> length (dp ! i) = K
               \<and> (\<forall>row\<in>set (ps d ! i). length row = 3) \<and> (\<forall>row\<in>set (dp ! i). length row = 3)
               \<and> (\<forall>row\<in>set (bs d ! i). length row = K)
             \<longrightarrow> length (vertices r) = length (bs d ! i)
               \<and> (\<forall>j<length (bs d ! i). \<forall>c<3.
                    vertices r ! j ! c = spec_deformed_entry (bs d ! i) (ps d ! i) (dp ! i) j c))"
proof -
  from argmax_first_max [OF assms(1)] obtain i where
    am: "argmax probs = Inr i" and i: "i < length probs"
    and mx: "\<forall>j<length probs. probs ! j \<le> probs ! i" and fst: "\<forall>j<i. probs ! j < probs ! i"
    by blast
  let ?r = "\<lparr>vertices = matmul (bs d ! i) (matadd (ps d ! i) (dp ! i)), faces = all_faces d ! i,
            original_vertices = all_vertices d ! i, template_id = example_ids d ! i\<rparr>"
  have inn: "i < n" using i assms(2) by simp
  have res: "get_prediction_to_mesh_fn d probs dp = Inr ?r"
    using am inn assms(3-8) by (simp add: get_prediction_to_mesh_fn_def ebind_def py_index_def)
  have ent: "length (vertices ?r) = length (bs d ! i)
               \<and> (\<forall>j<length (bs d ! i). \<forall>c<3.
                    vertices ?r ! j ! c = spec_deformed_entry (bs d ! i) (ps d ! i) (dp ! i) j c)"
    if "0 < K \<and> length (ps d ! i) = K \<and> length (dp ! i) = K
               \<and> (\<forall>row\<in>set (ps d ! i). length row = 3) \<and> (\<forall>row\<in>set (dp ! i). length row = 3)
               \<and> (\<forall>row\<in>set (bs d ! i). length row = K)"
    using deformed_vertices_entries [of K "ps d ! i" "dp ! i" 3 "bs d ! i"] that by simp
  show ?thesis
    apply (rule exI [of _ i])
    apply (rule exI [of _ ?r])
    using i mx fst res ent by simp
qed

theorem best_mesh_prediction_witness:
  "get_prediction_to_mesh_fn
     \<lparr>bs = [[[1]], [[2]], [[3]]],
      ps = [[[1, 1, 1]], [[1, 1, 1]], [[1, 1, 1]]],
      all_faces = [[], [[0, 1, 2]], []],
      all_vertices = [[[0, 0, 0]], [[1, 1, 1]], [[2, 2, 2]]],
      example_ids = [''a'', ''b'', ''c'']\<rparr>
     [1/5, 2/5, 2/5]
     [[[0, 0, 0]], [[1, 0, 0]], [[0, 0, 0]]]
   = Inr \<lparr>vertices = [[4, 2, 2]], faces = [[0, 1, 2]], original_vertices = [[1, 1, 1]],
          template_id = ''b''\<rparr>"
proof -
  let ?d = "\<lparr>bs = [[[1]], [[2]], [[3]]],
      ps = [[[1, 1, 1]], [[1, 1, 1]], [[1, 1, 1]]],
      all_faces = [[], [[0, 1, 2]], []],
      all_vertices = [[[0, 0, 0]], [[1, 1, 1]], [[2, 2, 2]]],
      example_ids = [''a'', ''b'', ''c'']\<rparr> :: mesh_data"
  let ?probs = "[1/5, 2/5, 2/5] :: real list"
  let ?dp = "[[[0, 0, 0]], [[1, 0, 0]], [[0, 0, 0]]] :: mat list"
  from best_mesh_prediction [of ?probs 3 ?d ?dp 1]
  obtain i r where i: "i < length ?probs"
    and mx: "\<forall>j<length ?probs. ?probs ! j \<le> ?probs ! i"
    and fs: "\<forall>j<i. ?probs ! j < ?probs ! i"
    and res: "get_prediction_to_mesh_fn ?d ?probs ?dp = Inr r"
    and v: "vertices r = matmul (bs ?d ! i) (matadd (ps ?d ! i) (?dp ! i))"
    and f: "faces r = all_faces ?d ! i"
    and ov: "original_vertices r = all_vertices ?d ! i"
    and t: "template_id r = example_ids ?d ! i"
    by auto
  have "i = 0 \<or> i = 1 \<or> i = 2" using i by auto
  then have i1: "i = 1"
  proof (elim disjE)
    assume "i = 0"
    with mx [rule_format, of 1] have "?probs ! 1 \<le> ?probs ! 0" by simp
    then show ?thesis by simp
  next
    assume "i = 1" then show ?thesis .
  next
    assume "i = 2"
    with fs [rule_format, of 1] have "?probs ! 1 < ?probs ! 2" by simp
    then show ?thesis by simp
  qed
  have "r = \<lparr>vertices = vertices r, faces = faces r, original_vertices = original_vertices r,
          template_id = template_id r\<rparr>" by simp
  also have "\<dots> = \<lparr>vertices = [[4, 2, 2]], faces = [[0, 1, 2]], original_vertices = [[1, 1, 1]],
          template_id = ''b''\<rparr>"
    unfolding v f ov t i1 by (simp add: matmul_def matadd_def)
  finally show ?thesis using res by simp
qed

subsection \<open>Segmented output for a template without data\<close>

lemma argmax_example: "argmax [1/5, 3/5, 1/5] = Inr 1"
  by (simp add: argmax_def)

text \<open>
  The absent results the two functions give: the segmented-cloud prediction returns
  \<^verbatim>\<open>None\<close> when the stored basis of the selected template is absent, the segmented-mesh
  prediction when its stored segmentation is absent.
\<close>

lemma segmented_absent_cases:
  "argmax probs = Inr i \<Longrightarrow>
     (i < length (sc_bs cd) \<and> sc_bs cd ! i = None \<longrightarrow>
        get_segmented_cloud_fn cd probs dp = Inr None)
   \<and> (i < length (sm_segs md) \<and> sm_segs md ! i = None \<longrightarrow>
        get_segmented_mesh_fn md probs dp = Inr None)"
  by (simp add: get_segmented_cloud_fn_def get_segmented_mesh_fn_def ebind_def py_index_def)

text \<open>
  Claim C5 asks for an absent result (\<^verbatim>\<open>None\<close>) from the segmented-output predictions
  whenever the selected template lacks its stored basis or its segmentation entry. The
  segmented-cloud prediction tests the basis only: for a selected template whose basis is
  stored and whose segmentation entry is absent it returns a result with the
  segmentation field \<^verbatim>\<open>None\<close>, where the segmented-mesh prediction returns \<^verbatim>\<open>None\<close>.
\<close>

theorem segmented_cloud_without_segmentation:
  "get_segmented_cloud_fn
     \<lparr>sc_bs = [Some [[1]], Some [[2]], Some [[1]]],
      sc_ps = [Some [[0, 0, 0]], Some [[1, 1, 1]], Some [[0, 0, 0]]],
      sc_segs = [Some [0], None, Some [1]],
      sc_original_points = [Some [[0, 0, 0]], Some [[5, 5, 5]], Some [[1, 1, 1]]]\<rparr>
     [1/5, 3/5, 1/5] [[[0, 0, 0]], [[0, 0, 0]], [[0, 0, 0]]]
   = Inr (Some \<lparr>points = [[2, 2, 2]], segmentation = None,
                original_points = Some [[5, 5, 5]]\<rparr>)"
  by (simp add: get_segmented_cloud_fn_def argmax_example ebind_def py_index_def
      matmul_def matadd_def)

subsection \<open>Top-k meshes\<close>

lemma argsort_example: "argsort [1/10, 1/5, 3/10, 2/5] = [0, 1, 2, 3]"
  by (simp add: argsort_def upt_rec)

text \<open>
  Claim C3 asks for exactly \<open>k\<close> meshes. With \<open>top_k = 2\<close> and four templates of
  probabilities \<open>0.1, 0.2, 0.3, 0.4\<close> the prediction function returns three meshes, those
  of templates 3, 2 and 1: the slice \<^verbatim>\<open>[-3:]\<close> does not use \<^verbatim>\<open>top_k\<close>.
\<close>

theorem top_k_returns_three_for_k_two:
  "get_prediction_to_top_k_mesh_fn
     \<lparr>bs = [[[1]], [[1]], [[1]], [[1]]],
      ps = [[[0, 0, 0]], [[1, 1, 1]], [[2, 2, 2]], [[3, 3, 3]]],
      all_faces = [[], [], [], []],
      all_vertices = [[[0, 0, 0]], [[1, 1, 1]], [[2, 2, 2]], [[3, 3, 3]]],
      example_ids = [''a'', ''b'', ''c'', ''d'']\<rparr>
     2 [1/10, 1/5, 3/10, 2/5]
     [[[0, 0, 0]], [[0, 0, 0]], [[0, 0, 0]], [[0, 0, 0]]]
   = Inr [\<lparr>vertices = [[3, 3, 3]], faces = [], original_vertices = [[3, 3, 3]]\<rparr>,
          \<lparr>vertices = [[2, 2, 2]], faces = [], original_vertices = [[2, 2, 2]]\<rparr>,
          \<lparr>vertices = [[1, 1, 1]], faces = [], original_vertices = [[1, 1, 1]]\<rparr>]"
  by (simp add: get_prediction_to_top_k_mesh_fn_def argsort_example get_deformed_mesh_def
      ebind_def py_index_def matmul_def matadd_def Let_def)

end
